theory Spec2Isabelle
  imports Main
begin

section \<open>Values, rows and async sequences\<close>

text \<open>
  The program is \<^verbatim>\<open>src/index.ts\<close>: two async generators, \<^verbatim>\<open>groupBy\<close> and \<^verbatim>\<open>map\<close>, and
  their composition in \<^verbatim>\<open>main\<close>. Rows are untyped objects (\<^verbatim>\<open>any\<close>) and keys are arbitrary
  JavaScript values, so the model has a type of JavaScript values. Numbers are the
  integers (the ids and quantities of the tables) and \<^verbatim>\<open>NaN\<close>, the one value that is not
  strictly equal to itself; \<open>JRef\<close> stands for an object, compared by reference.
\<close>

datatype jsval =
    JUndefined
  | JNull
  | JBool bool
  | JNum int
  | JNaN
  | JStr string
  | JRef nat

text \<open>The operator \<^verbatim>\<open>===\<close>; the source's \<^verbatim>\<open>!==\<close> is its negation.\<close>

definition strict_eq :: "jsval \<Rightarrow> jsval \<Rightarrow> bool" where
  "strict_eq a b = (a = b \<and> a \<noteq> JNaN)"

text \<open>
  A row is an object with string keys; reading a property that the object does not have
  gives \<^verbatim>\<open>undefined\<close>.
\<close>

type_synonym row = "string \<rightharpoonup> jsval"

definition get :: "row \<Rightarrow> string \<Rightarrow> jsval" where
  "get r name = (case r name of None \<Rightarrow> JUndefined | Some v \<Rightarrow> v)"

text \<open>
  What an async iterable delivers when it is consumed to its end: the elements it
  produces, in order, and then either normal completion (\<open>None\<close>) or a rejection
  (\<open>Some e\<close>). Only finite sequences are modelled.
\<close>

datatype ('a, 'e) async_seq = AsyncSeq (items: "'a list") (failure: "'e option")

text \<open>
  The run of a generator that is consumed to its end, as the list of its effects in the
  order they happen: an element taken from the upstream iterator (\<open>Pull\<close>), a value
  produced (\<open>Yield\<close>), and the end of the run, by return (\<open>Return\<close>) or by an exception
  that leaves the generator (\<open>Throw\<close>).
\<close>

datatype ('a, 'b, 'e) event = Pull 'a | Yield 'b | Throw 'e | Return

fun yields :: "('a, 'b, 'e) event list \<Rightarrow> 'b list" where
  "yields [] = []"
| "yields (Yield b # t) = b # yields t"
| "yields (Pull a # t) = yields t"
| "yields (Throw e # t) = yields t"
| "yields (Return # t) = yields t"

fun thrown :: "('a, 'b, 'e) event list \<Rightarrow> 'e option" where
  "thrown [] = None"
| "thrown (Throw e # t) = Some e"
| "thrown (Pull a # t) = thrown t"
| "thrown (Yield b # t) = thrown t"
| "thrown (Return # t) = thrown t"


text \<open>The async sequence that a consumer of the generator sees.\<close>

definition delivered :: "('a, 'b, 'e) event list \<Rightarrow> ('b, 'e) async_seq" where
  "delivered t = AsyncSeq (yields t) (thrown t)"

section \<open>groupBy\<close>

text \<open>
  Lines 23 to 39. The loop \<^verbatim>\<open>for await (const row of rows)\<close> is the recursion over the
  elements of the upstream sequence; \<open>currentGroupKey\<close> and \<open>currentGroup\<close> are the two
  local variables. The key function may throw (\<open>Inl\<close>); it is a function of the row, so
  the calls \<^verbatim>\<open>f(row)\<close> of lines 28, 29 and 31 give the same result and the first of them
  (line 28 or line 29) is the one that can throw. After the loop (lines 36 to 38) the
  open group is yielded when it is not empty. When the upstream sequence rejects, the
  exception leaves the generator and the open group is dropped.
\<close>

fun groupBy_loop ::
  "('r \<Rightarrow> 'e + jsval) \<Rightarrow> jsval \<Rightarrow> 'r list \<Rightarrow> 'r list \<Rightarrow> 'e option \<Rightarrow> ('r, 'r list, 'e) event list"
where
  "groupBy_loop f currentGroupKey currentGroup [] None =
     (if length currentGroup > 0 then [Yield currentGroup, Return] else [Return])"
| "groupBy_loop f currentGroupKey currentGroup [] (Some e) = [Throw e]"
| "groupBy_loop f currentGroupKey currentGroup (row # rows) ending =
     Pull row #
     (case f row of
        Inl e \<Rightarrow> [Throw e]
      | Inr k \<Rightarrow>
          if strict_eq currentGroupKey JUndefined then
            groupBy_loop f k (currentGroup @ [row]) rows ending
          else if \<not> strict_eq currentGroupKey k then
            Yield currentGroup # groupBy_loop f k ([] @ [row]) rows ending
          else
            groupBy_loop f currentGroupKey (currentGroup @ [row]) rows ending)"

definition groupBy_run ::
  "('r, 'e) async_seq \<Rightarrow> ('r \<Rightarrow> 'e + jsval) \<Rightarrow> ('r, 'r list, 'e) event list" where
  "groupBy_run rows f = groupBy_loop f JUndefined [] (items rows) (failure rows)"

definition groupBy :: "('r, 'e) async_seq \<Rightarrow> ('r \<Rightarrow> 'e + jsval) \<Rightarrow> ('r list, 'e) async_seq" where
  "groupBy rows f = delivered (groupBy_run rows f)"

section \<open>map\<close>

text \<open>
  What a call of the function given to \<^verbatim>\<open>map\<close> returns: a value that is not a thenable, or
  a promise, which is fulfilled with a value or rejects with a reason. Promises are
  settled ones: a run in which a promise never settles does not end, and only runs that
  end are modelled.
\<close>

datatype ('b, 'e) returned = Plain 'b | Promise_fulfilled 'b | Promise_rejected 'e

text \<open>
  The operand of \<^verbatim>\<open>yield\<close> in an async generator is awaited: a value that is not a thenable
  is delivered as it is, a promise gives the value it is fulfilled with, and a promise
  that rejects makes the \<^verbatim>\<open>yield\<close> throw its reason.
\<close>

fun awaited :: "('b, 'e) returned \<Rightarrow> 'e + 'b" where
  "awaited (Plain b) = Inr b"
| "awaited (Promise_fulfilled b) = Inr b"
| "awaited (Promise_rejected e) = Inl e"

text \<open>
  Lines 41 to 45. Each element pulled is given to \<open>f\<close>; an exception of \<open>f\<close> leaves the
  generator before anything is yielded for that element. The result of \<open>f\<close> is the operand
  of \<^verbatim>\<open>yield\<close> (line 43), so it is awaited: the value is yielded, or the rejection leaves the
  generator. (The operand of the \<^verbatim>\<open>yield\<close> of \<^verbatim>\<open>groupBy\<close> is an array, which is not a thenable.)
\<close>

fun map_loop ::
  "('a \<Rightarrow> 'e + ('b, 'e) returned) \<Rightarrow> 'a list \<Rightarrow> 'e option \<Rightarrow> ('a, 'b, 'e) event list"
where
  "map_loop f [] None = [Return]"
| "map_loop f [] (Some e) = [Throw e]"
| "map_loop f (row # rows) ending =
     Pull row #
     (case f row of
        Inl e \<Rightarrow> [Throw e]
      | Inr r \<Rightarrow>
          (case awaited r of
             Inl e \<Rightarrow> [Throw e]
           | Inr b \<Rightarrow> Yield b # map_loop f rows ending))"

definition map_run ::
  "('a, 'e) async_seq \<Rightarrow> ('a \<Rightarrow> 'e + ('b, 'e) returned) \<Rightarrow> ('a, 'b, 'e) event list" where
  "map_run rows f = map_loop f (items rows) (failure rows)"

definition map_gen ::
  "('a, 'e) async_seq \<Rightarrow> ('a \<Rightarrow> 'e + ('b, 'e) returned) \<Rightarrow> ('b, 'e) async_seq" where
  "map_gen rows f = delivered (map_run rows f)"

text \<open>
  A function whose results are not thenables, as an argument of \<^verbatim>\<open>map\<close>: it throws what
  the function throws and returns what it returns.
\<close>

definition plain :: "('a \<Rightarrow> 'e + 'b) \<Rightarrow> 'a \<Rightarrow> 'e + ('b, 'e) returned" where
  "plain h a = (case h a of Inl e \<Rightarrow> Inl e | Inr b \<Rightarrow> Inr (Plain b))"

text \<open>A function that never throws, and a sequence that ends normally.\<close>

definition pure :: "('a \<Rightarrow> 'b) \<Rightarrow> 'a \<Rightarrow> 'e + 'b" where
  "pure f a = Inr (f a)"

definition from_list :: "'a list \<Rightarrow> ('a, 'e) async_seq" where
  "from_list xs = AsyncSeq xs None"

section \<open>The pipeline of main\<close>

datatype error = TypeError | Rejected jsval

record Line =
  line_id :: jsval
  description :: jsval
  quantity :: jsval

record Reservation =
  reservation_id :: jsval
  storeId :: jsval
  lines :: "Line list"

text \<open>Line 70: the key of a row.\<close>

definition key_of_row :: "row \<Rightarrow> error + jsval" where
  "key_of_row r = Inr (get r ''reservation_id'')"

text \<open>Lines 78 to 82: the line object built from a row.\<close>

definition line_of_row :: "row \<Rightarrow> Line" where
  "line_of_row r =
     \<lparr> line_id = get r ''reservation_line_id'',
       description = get r ''description'',
       quantity = get r ''quantity'' \<rparr>"

text \<open>
  Lines 71 to 85. \<^verbatim>\<open>groupedRows[0]\<close> of an empty array is \<^verbatim>\<open>undefined\<close>, and reading a
  property of \<^verbatim>\<open>undefined\<close> throws a TypeError.
\<close>

definition reservation_of_group :: "row list \<Rightarrow> error + Reservation" where
  "reservation_of_group groupedRows =
     (case groupedRows of
        [] \<Rightarrow> Inl TypeError
      | firstRow # _ \<Rightarrow>
          Inr \<lparr> reservation_id = get firstRow ''reservation_id'',
                storeId = get firstRow ''store_id'',
                lines =
                  (if \<not> strict_eq (get firstRow ''reservation_line_id'') JNull
                   then List.map line_of_row groupedRows
                   else []) \<rparr>)"

text \<open>
  Line 87. \<^verbatim>\<open>JSON.stringify\<close> is a library function: it is the parameter \<open>stringify\<close>.
\<close>

definition serialize :: "(Reservation \<Rightarrow> string) \<Rightarrow> Reservation \<Rightarrow> error + string" where
  "serialize stringify r = Inr (stringify r @ [CHR 0x0A])"

text \<open>
  Lines 68 to 86 and 68 to 88. The transform returns an object literal with no property
  \<^verbatim>\<open>then\<close> and the serialiser returns a string: neither result is a thenable.
\<close>

definition reservations :: "(row, error) async_seq \<Rightarrow> (Reservation, error) async_seq" where
  "reservations rows = map_gen (groupBy rows key_of_row) (plain reservation_of_group)"

definition groupedReservations ::
  "(Reservation \<Rightarrow> string) \<Rightarrow> (row, error) async_seq \<Rightarrow> (string, error) async_seq" where
  "groupedReservations stringify rows = map_gen (reservations rows) (plain (serialize stringify))"

section \<open>Notions of the specification\<close>

text \<open>
  \<open>split_adj B xs\<close> cuts the list \<open>xs\<close> between every two neighbours \<open>x\<close>, \<open>y\<close> with
  \<open>B x y\<close> and nowhere else. The second case of the \<open>case\<close> is the one that occurs: a
  non-empty list always has a first piece.
\<close>

fun split_adj :: "('a \<Rightarrow> 'a \<Rightarrow> bool) \<Rightarrow> 'a list \<Rightarrow> 'a list list" where
  "split_adj B [] = []"
| "split_adj B [x] = [[x]]"
| "split_adj B (x # y # zs) =
     (if B x y then [x] # split_adj B (y # zs)
      else (case split_adj B (y # zs) of [] \<Rightarrow> [[x]] | g # gs \<Rightarrow> (x # g) # gs))"

text \<open>
  The maximal runs of equal consecutive keys: a run ends between two neighbours whose
  keys are not equal. Equality of keys is the equality of the language, \<^verbatim>\<open>===\<close>.
\<close>

definition key_runs :: "('r \<Rightarrow> jsval) \<Rightarrow> 'r list \<Rightarrow> 'r list list" where
  "key_runs f rows = split_adj (\<lambda>a b. \<not> strict_eq (f a) (f b)) rows"

text \<open>
  Sorted by the grouping key, in the sense that all records sharing a key are contiguous:
  once the repetitions of neighbours are removed, no key occurs twice.
\<close>

definition sorted_by_key :: "('r \<Rightarrow> jsval) \<Rightarrow> 'r list \<Rightarrow> bool" where
  "sorted_by_key f rows = distinct (remdups_adj (List.map f rows))"

text \<open>
  No record whose key is \<^verbatim>\<open>undefined\<close> is directly followed by a record with another key.
  It holds in particular when \<open>f\<close> returns \<^verbatim>\<open>undefined\<close> for no record.
\<close>

fun no_key_after_undefined :: "('r \<Rightarrow> jsval) \<Rightarrow> 'r list \<Rightarrow> bool" where
  "no_key_after_undefined f (a # b # rows) =
     ((f a = JUndefined \<longrightarrow> f b = JUndefined) \<and> no_key_after_undefined f (b # rows))"
| "no_key_after_undefined f [a] = True"
| "no_key_after_undefined f [] = True"

text \<open>
  Where \<^verbatim>\<open>groupBy\<close> closes a group: between a record \<open>a\<close> and its successor \<open>b\<close> when the key
  of \<open>a\<close> is not \<^verbatim>\<open>undefined\<close> and is not strictly equal to the key of \<open>b\<close>.
\<close>

definition closes_after :: "('r \<Rightarrow> jsval) \<Rightarrow> 'r \<Rightarrow> 'r \<Rightarrow> bool" where
  "closes_after f a b = (f a \<noteq> JUndefined \<and> \<not> strict_eq (f a) (f b))"

text \<open>
  Sample inputs: the object \<^verbatim>\<open>{key: k}\<close> with the key function \<^verbatim>\<open>r => r.key\<close>, and a row of
  the join of \<^verbatim>\<open>main\<close> with its five columns.
\<close>

definition key_row :: "jsval \<Rightarrow> row" where
  "key_row k = [''key'' \<mapsto> k]"

definition key_field :: "row \<Rightarrow> jsval" where
  "key_field r = get r ''key''"

definition join_row :: "jsval \<Rightarrow> jsval \<Rightarrow> jsval \<Rightarrow> jsval \<Rightarrow> jsval \<Rightarrow> row" where
  "join_row rid sid lid descr qty =
     [''reservation_id'' \<mapsto> rid, ''store_id'' \<mapsto> sid, ''reservation_line_id'' \<mapsto> lid,
      ''description'' \<mapsto> descr, ''quantity'' \<mapsto> qty]"

text \<open>
  A sample function for \<^verbatim>\<open>map\<close> that throws on no value: for \<open>1\<close> it returns a promise
  fulfilled with \<open>10\<close>, for any other value a promise that rejects with that value.
\<close>

definition promise_sample :: "jsval \<Rightarrow> (jsval, error) returned" where
  "promise_sample v =
     (if v = JNum 1 then Promise_fulfilled (JNum 10) else Promise_rejected (Rejected v))"

section \<open>Auxiliary facts\<close>

lemma key_field_key_row: "key_field (key_row k) = k"
  by (simp add: key_field_def key_row_def get_def)

lemma get_join_row:
  "get (join_row rid sid lid descr qty) ''reservation_id'' = rid"
  "get (join_row rid sid lid descr qty) ''store_id'' = sid"
  "get (join_row rid sid lid descr qty) ''reservation_line_id'' = lid"
  "get (join_row rid sid lid descr qty) ''description'' = descr"
  "get (join_row rid sid lid descr qty) ''quantity'' = qty"
  by (simp_all add: join_row_def get_def)

lemma strict_eq_null: "strict_eq k JNull = (k = JNull)"
  by (auto simp: strict_eq_def)

lemma split_adj_ne: "split_adj B (x # xs) \<noteq> []"
  by (induction B "x # xs" arbitrary: x xs rule: split_adj.induct) (auto split: list.splits)

lemma split_adj_concat: "concat (split_adj B xs) = xs"
  by (induction B xs rule: split_adj.induct) (auto simp: split_adj_ne split: list.splits)

lemma split_adj_nonempty: "g \<in> set (split_adj B xs) \<Longrightarrow> g \<noteq> []"
  by (induction B xs arbitrary: g rule: split_adj.induct) (auto split: list.splits if_splits)

lemma split_adj_hd: "hd (hd (split_adj B (x # xs))) = x"
  by (cases xs) (auto split: list.splits)

text \<open>The groups that the loop yields, from any state of its two variables.\<close>

lemma loop_yields:
  "yields (groupBy_loop (pure f) key grp rows None) =
   (case rows of
      [] \<Rightarrow> (if grp = [] then [] else [grp])
    | r # _ \<Rightarrow>
       (if key \<noteq> JUndefined \<and> \<not> strict_eq key (f r) then grp # split_adj (closes_after f) rows
        else (case split_adj (closes_after f) rows of [] \<Rightarrow> [grp] | g # gs \<Rightarrow> (grp @ g) # gs)))"
proof (induction rows arbitrary: key grp)
  case Nil
  then show ?case by simp
next
  case (Cons r rows)
  show ?case
  proof (cases rows)
    case Nil
    then show ?thesis by (simp add: pure_def strict_eq_def)
  next
    case (Cons r' rows')
    have ne: "split_adj (closes_after f) (r' # rows') \<noteq> []" by (rule split_adj_ne)
    show ?thesis
      using Cons.IH[of "f r" "grp @ [r]"] Cons.IH[of "f r" "[r]"] Cons.IH[of key "grp @ [r]"] ne
      unfolding Cons
      by (auto simp: pure_def strict_eq_def closes_after_def split: list.splits if_splits)
  qed
qed

lemma loop_thrown: "thrown (groupBy_loop (pure f) key grp rows None) = None"
  by (induction rows arbitrary: key grp) (simp_all add: pure_def)

lemma items_from_list: "items (from_list xs) = xs"
  by (simp add: from_list_def)

lemma from_list_eq: "(from_list xs = from_list ys) = (xs = ys)"
  by (simp add: from_list_def)

text \<open>The groups of a whole run: the input, cut where \<open>closes_after\<close> holds.\<close>

lemma groupBy_pure:
  "groupBy (from_list rows) (pure f) = from_list (split_adj (closes_after f) rows)"
proof -
  have "yields (groupBy_loop (pure f) JUndefined [] rows None) = split_adj (closes_after f) rows"
    unfolding loop_yields using split_adj_ne[of "closes_after f"]
    by (cases rows) (auto split: list.splits)
  then show ?thesis
    by (simp add: groupBy_def groupBy_run_def delivered_def from_list_def loop_thrown)
qed

lemma closes_after_runs:
  "no_key_after_undefined f rows \<Longrightarrow> split_adj (closes_after f) rows = key_runs f rows"
  unfolding key_runs_def
  by (induction f rows rule: no_key_after_undefined.induct)
     (simp_all add: closes_after_def strict_eq_def)

lemma key_runs_same_key:
  "g \<in> set (key_runs f rows) \<Longrightarrow> a \<in> set g \<Longrightarrow> f a = f (hd g)"
  unfolding key_runs_def
proof (induction "\<lambda>a b. \<not> strict_eq (f a) (f b)" rows arbitrary: g a rule: split_adj.induct)
  case 1
  then show ?case by simp
next
  case (2 x)
  then show ?case by simp
next
  case (3 x y zs)
  let ?B = "\<lambda>a b. \<not> strict_eq (f a) (f b)"
  obtain g0 gs where split: "split_adj ?B (y # zs) = g0 # gs"
    using split_adj_ne[of ?B y zs] by (cases "split_adj ?B (y # zs)") auto
  have hd0: "hd g0 = y" using split_adj_hd[of ?B y zs] split by simp
  show ?case
  proof (cases "strict_eq (f x) (f y)")
    case True
    then have fxy: "f x = f y" by (simp add: strict_eq_def)
    from 3(3) True split have "g = x # g0 \<or> g \<in> set gs" by auto
    then show ?thesis
    proof
      assume g: "g = x # g0"
      show ?thesis
      proof (cases "a = x")
        case True
        then show ?thesis using g by simp
      next
        case False
        then have "a \<in> set g0" using 3(4) g by simp
        then have "f a = f (hd g0)" using 3(2)[of g0 a] True split by simp
        then show ?thesis using g hd0 fxy by simp
      qed
    next
      assume "g \<in> set gs"
      then show ?thesis using 3(2)[of g a] 3(4) True split by simp
    qed
  next
    case False
    then show ?thesis using 3(1)[of g a] 3(3) 3(4) by auto
  qed
qed

text \<open>The effects of \<^verbatim>\<open>map\<close> on a prefix whose elements \<open>f\<close> accepts, seen through the projections.\<close>

lemma yields_steps:
  "yields (concat (List.map (\<lambda>x. [Pull x, Yield (g x)]) xs) @ t) = List.map g xs @ yields t"
  by (induction xs) simp_all

lemma thrown_steps:
  "thrown (concat (List.map (\<lambda>x. [Pull x, Yield (g x)]) xs) @ t) = thrown t"
  by (induction xs) simp_all


lemma map_loop_awaited:
  "(\<forall>x \<in> set xs. \<exists>r. f x = Inr r \<and> awaited r = Inr (g x)) \<Longrightarrow>
   map_loop f xs None = concat (List.map (\<lambda>x. [Pull x, Yield (g x)]) xs) @ [Return]"
  by (induction xs) auto


section \<open>Claims about groupBy\<close>

text \<open>
  C1, as stated, at an input that is sorted by key: the keys are \<^verbatim>\<open>undefined\<close> and \<open>1\<close>, two
  runs, and \<^verbatim>\<open>groupBy\<close> emits one group.
\<close>

theorem groupBy_undefined_key_merges_runs:
  "sorted_by_key key_field [key_row JUndefined, key_row (JNum 1)] \<and>
   length (items (groupBy (from_list [key_row JUndefined, key_row (JNum 1)]) (pure key_field))) = 1 \<and>
   length (key_runs key_field [key_row JUndefined, key_row (JNum 1)]) = 2"
  by (simp add: sorted_by_key_def groupBy_pure items_from_list key_runs_def closes_after_def
      strict_eq_def key_field_key_row)

text \<open>
  C1, amended. For every input sequence in which no record whose key is \<^verbatim>\<open>undefined\<close> is
  directly followed by a record with another key (so whenever \<open>f\<close> never returns
  \<^verbatim>\<open>undefined\<close>), and every key function \<open>f\<close>, \<^verbatim>\<open>groupBy\<close> completes normally and the groups it
  emits are the maximal runs of equal consecutive keys, one group per run: the number of
  groups is the number of runs. The input need not be sorted by key for this.
\<close>

theorem groupBy_one_group_per_run:
  assumes "no_key_after_undefined f rows"
  shows "\<exists>groups. groupBy (from_list rows) (pure f) = from_list groups \<and>
           groups = key_runs f rows \<and> length groups = length (key_runs f rows)"
  using assms by (simp add: groupBy_pure closes_after_runs)

text \<open>C1 at the keys \<open>1, 1, 2\<close>, \<^verbatim>\<open>undefined\<close>: three runs, three groups.\<close>

theorem groupBy_one_group_per_run_witness:
  "no_key_after_undefined key_field
     [key_row (JNum 1), key_row (JNum 1), key_row (JNum 2), key_row JUndefined] \<and>
   (\<exists>groups.
      groupBy
        (from_list [key_row (JNum 1), key_row (JNum 1), key_row (JNum 2), key_row JUndefined]
          :: (row, error) async_seq)
        (pure key_field) = from_list groups \<and>
      groups = [[key_row (JNum 1), key_row (JNum 1)], [key_row (JNum 2)], [key_row JUndefined]] \<and>
      length groups = 3)"
proof -
  let ?rows = "[key_row (JNum 1), key_row (JNum 1), key_row (JNum 2), key_row JUndefined]"
  have h: "no_key_after_undefined key_field ?rows"
    by (simp add: key_field_key_row)
  have runs: "key_runs key_field ?rows =
      [[key_row (JNum 1), key_row (JNum 1)], [key_row (JNum 2)], [key_row JUndefined]]"
    by (simp add: key_runs_def strict_eq_def key_field_key_row)
  obtain groups where
    "groupBy (from_list ?rows :: (row, error) async_seq) (pure key_field) = from_list groups"
    and "groups = key_runs key_field ?rows"
    using groupBy_one_group_per_run [OF h] by blast
  then show ?thesis using h runs by simp
qed

text \<open>
  C2. For every input sequence, sorted or not, and every key function \<open>f\<close>, \<^verbatim>\<open>groupBy\<close>
  completes normally and the concatenation of the groups it emits, in the order of
  emission, is the input sequence: no record is lost, duplicated or moved.
\<close>

theorem groupBy_concat:
  "\<exists>groups. groupBy (from_list rows) (pure f) = from_list groups \<and> concat groups = rows"
  by (simp add: groupBy_pure from_list_eq split_adj_concat)

text \<open>
  C3, as stated, at an input that is sorted by key: the keys are \<^verbatim>\<open>undefined\<close> and \<open>1\<close>, and
  the one group emitted holds both records.
\<close>

theorem groupBy_mixed_group:
  "sorted_by_key key_field [key_row JUndefined, key_row (JNum 1)] \<and>
   groupBy (from_list [key_row JUndefined, key_row (JNum 1)]) (pure key_field) =
     from_list [[key_row JUndefined, key_row (JNum 1)]] \<and>
   key_field (key_row JUndefined) \<noteq> key_field (key_row (JNum 1))"
  by (simp add: sorted_by_key_def groupBy_pure closes_after_def strict_eq_def key_field_key_row)

text \<open>
  C3, amended. For every input sequence and every key function \<open>f\<close>, every group that
  \<^verbatim>\<open>groupBy\<close> emits is non-empty and the groups hold the records in source order; when no
  record whose key is \<^verbatim>\<open>undefined\<close> is directly followed by a record with another key (so
  whenever \<open>f\<close> never returns \<^verbatim>\<open>undefined\<close>), all records of one group have the same key.
\<close>

theorem groupBy_groups_uniform:
  "\<exists>groups. groupBy (from_list rows) (pure f) = from_list groups \<and>
     (\<forall>g \<in> set groups. g \<noteq> []) \<and> concat groups = rows \<and>
     (no_key_after_undefined f rows \<longrightarrow>
        (\<forall>g \<in> set groups. \<forall>a \<in> set g. \<forall>b \<in> set g. f a = f b))"
proof (intro exI[of _ "split_adj (closes_after f) rows"] conjI impI ballI)
  show "groupBy (from_list rows) (pure f) = from_list (split_adj (closes_after f) rows)"
    by (rule groupBy_pure)
next
  fix g assume "g \<in> set (split_adj (closes_after f) rows)"
  then show "g \<noteq> []" by (simp add: split_adj_nonempty)
next
  show "concat (split_adj (closes_after f) rows) = rows"
    by (simp add: split_adj_concat)
next
  fix g a b
  assume h: "no_key_after_undefined f rows"
    and g: "g \<in> set (split_adj (closes_after f) rows)"
    and a: "a \<in> set g" and b: "b \<in> set g"
  from h g have "g \<in> set (key_runs f rows)" by (simp add: closes_after_runs)
  then have "f a = f (hd g)" "f b = f (hd g)" using a b by (auto dest: key_runs_same_key)
  then show "f a = f b" by simp
qed

text \<open>C3 at the keys \<open>1, 1, 2\<close>.\<close>

theorem groupBy_groups_uniform_witness:
  "no_key_after_undefined key_field [key_row (JNum 1), key_row (JNum 1), key_row (JNum 2)] \<and>
   (\<exists>groups.
      groupBy (from_list [key_row (JNum 1), key_row (JNum 1), key_row (JNum 2)]
        :: (row, error) async_seq) (pure key_field) = from_list groups \<and>
      (\<forall>g \<in> set groups. g \<noteq> []) \<and>
      concat groups = [key_row (JNum 1), key_row (JNum 1), key_row (JNum 2)] \<and>
      (\<forall>g \<in> set groups. \<forall>a \<in> set g. \<forall>b \<in> set g. key_field a = key_field b))"
proof -
  have h: "no_key_after_undefined key_field [key_row (JNum 1), key_row (JNum 1), key_row (JNum 2)]"
    by (simp add: key_field_key_row)
  show ?thesis
    using h groupBy_groups_uniform [of "[key_row (JNum 1), key_row (JNum 1), key_row (JNum 2)]" key_field]
    by blast
qed

section \<open>Claims about map\<close>

text \<open>
  C4, as stated, at two elements and a function that throws on neither: it returns a
  promise fulfilled with \<open>10\<close> for the first and a promise that rejects for the second.
  \<^verbatim>\<open>map\<close> delivers one element, not two, and ends with the rejection; the one element is
  the number \<open>10\<close>, which is not what the function returned, a promise.
\<close>

theorem map_gen_promise_results:
  "map_gen (from_list [JNum 1, JNum 2]) (pure promise_sample) =
     AsyncSeq [JNum 10] (Some (Rejected (JNum 2))) \<and>
   length (items (map_gen (from_list [JNum 1, JNum 2]) (pure promise_sample))) \<noteq>
     length [JNum 1, JNum 2] \<and>
   promise_sample (JNum 1) \<noteq> Plain (JNum 10)"
  by (simp add: map_gen_def map_run_def delivered_def from_list_def pure_def promise_sample_def)

text \<open>
  C4, amended. For every input sequence of length \<open>N\<close> and every function \<open>f\<close> none of whose
  results on the input is a promise that rejects, \<^verbatim>\<open>map\<close> completes normally with a sequence
  of length \<open>N\<close> whose \<open>i\<close>-th element is \<open>f\<close> applied to the \<open>i\<close>-th input element or, when
  that result is a promise, the value the promise is fulfilled with, for all \<open>i\<close>: the
  order is kept and each input gives one output.
\<close>

theorem map_gen_pure:
  assumes "\<forall>x \<in> set xs. \<forall>e. f x \<noteq> Promise_rejected e"
  shows "\<exists>ys. map_gen (from_list xs) (pure f) = from_list ys \<and>
     length ys = length xs \<and>
     (\<forall>i<length xs. f (xs ! i) = Plain (ys ! i) \<or> f (xs ! i) = Promise_fulfilled (ys ! i))"
proof -
  let ?g = "\<lambda>x. projr (awaited (f x))"
  have val: "f x = Plain (?g x) \<or> f x = Promise_fulfilled (?g x)" if "x \<in> set xs" for x
    using assms that by (cases "f x") auto
  have "awaited (f x) = Inr (?g x)" if "x \<in> set xs" for x
    using assms that by (cases "f x") auto
  then have "\<forall>x \<in> set xs. \<exists>r. pure f x = Inr r \<and> awaited r = Inr (?g x)"
    by (simp add: pure_def)
  then have "map_loop (pure f) xs None = concat (List.map (\<lambda>x. [Pull x, Yield (?g x)]) xs) @ [Return]"
    by (rule map_loop_awaited)
  then have "map_gen (from_list xs) (pure f) = from_list (List.map ?g xs)"
    by (simp add: map_gen_def map_run_def delivered_def from_list_def yields_steps thrown_steps)
  moreover have "\<forall>i<length xs. f (xs ! i) = Plain (List.map ?g xs ! i) \<or>
      f (xs ! i) = Promise_fulfilled (List.map ?g xs ! i)"
    using val by simp
  ultimately show ?thesis
    by (intro exI[of _ "List.map ?g xs"]) simp
qed

text \<open>
  C4 at three values and the function \<^verbatim>\<open>v => [v, v]\<close>, which for the second value returns
  the pair in a fulfilled promise.
\<close>

theorem map_gen_pure_witness:
  "\<exists>ys. map_gen (from_list [JNum 1, JNum 2, JNum 3] :: (jsval, error) async_seq)
          (pure (\<lambda>v. if v = JNum 2 then Promise_fulfilled [v, v] else Plain [v, v])) =
          from_list ys \<and>
     length ys = 3 \<and> ys ! 0 = [JNum 1, JNum 1] \<and> ys ! 1 = [JNum 2, JNum 2] \<and>
     ys ! 2 = [JNum 3, JNum 3]"
proof -
  let ?xs = "[JNum 1, JNum 2, JNum 3]"
  let ?f = "\<lambda>v. if v = JNum 2 then Promise_fulfilled [v, v] else Plain [v, v]
              :: (jsval list, error) returned"
  have h: "\<forall>x \<in> set ?xs. \<forall>e. ?f x \<noteq> Promise_rejected e" by simp
  obtain ys where
    ys: "map_gen (from_list ?xs :: (jsval, error) async_seq) (pure ?f) = from_list ys"
    and len: "length ys = length ?xs"
    and nth: "\<forall>i<length ?xs. ?f (?xs ! i) = Plain (ys ! i) \<or> ?f (?xs ! i) = Promise_fulfilled (ys ! i)"
    using map_gen_pure [OF h] by blast
  have "ys ! 0 = [JNum 1, JNum 1]" "ys ! 1 = [JNum 2, JNum 2]" "ys ! 2 = [JNum 3, JNum 3]"
    using nth [rule_format, of 0] nth [rule_format, of 1] nth [rule_format, of 2] by simp_all
  then show ?thesis using ys len by (intro exI[of _ ys]) simp
qed



section \<open>Claims about the pipeline of main\<close>

text \<open>
  C5, as stated, at a group of two rows of which the first has a child id and the second
  has \<^verbatim>\<open>null\<close>: the transform gives two lines, one of them for the second row, where the
  claim has only the projection of the first row.
\<close>

theorem reservation_of_group_mixed_nulls:
  "reservation_of_group
     [join_row (JNum 1) (JStr ''s'') (JStr ''a'') (JStr ''d'') (JNum 2),
      join_row (JNum 1) (JStr ''s'') JNull JNull JNull] =
   Inr \<lparr> reservation_id = JNum 1, storeId = JStr ''s'',
         lines = [\<lparr> line_id = JStr ''a'', description = JStr ''d'', quantity = JNum 2 \<rparr>,
                  \<lparr> line_id = JNull, description = JNull, quantity = JNull \<rparr>] \<rparr> \<and>
   List.map line_of_row
     (filter (\<lambda>row. get row ''reservation_line_id'' \<noteq> JNull)
        [join_row (JNum 1) (JStr ''s'') (JStr ''a'') (JStr ''d'') (JNum 2),
         join_row (JNum 1) (JStr ''s'') JNull JNull JNull]) =
   [\<lparr> line_id = JStr ''a'', description = JStr ''d'', quantity = JNum 2 \<rparr>]"
  by (simp add: reservation_of_group_def line_of_row_def get_join_row strict_eq_null)

text \<open>
  C5, amended. For every non-empty group, the transform produces one domain object whose
  parent fields (id, owning key) come from the first record of the group and whose child
  list is empty when the child id of the first record is \<^verbatim>\<open>null\<close> and holds the projections
  of all records of the group otherwise. When every record of the group agrees with the
  first on whether its child id is \<^verbatim>\<open>null\<close>, the child list holds exactly the projections of
  the records whose child id is not \<^verbatim>\<open>null\<close>.
\<close>

theorem reservation_of_group_first_row:
  "\<exists>r. reservation_of_group (firstRow # rest) = Inr r \<and>
     reservation_id r = get firstRow ''reservation_id'' \<and>
     storeId r = get firstRow ''store_id'' \<and>
     lines r =
       (if get firstRow ''reservation_line_id'' = JNull then []
        else List.map line_of_row (firstRow # rest)) \<and>
     ((\<forall>row \<in> set rest.
         (get row ''reservation_line_id'' = JNull) = (get firstRow ''reservation_line_id'' = JNull)) \<longrightarrow>
       lines r =
         List.map line_of_row
           (filter (\<lambda>row. get row ''reservation_line_id'' \<noteq> JNull) (firstRow # rest)))"
proof -
  have "(\<forall>row \<in> set rest. get row ''reservation_line_id'' = JNull) \<Longrightarrow>
      filter (\<lambda>row. get row ''reservation_line_id'' \<noteq> JNull) rest = []"
    by (induction rest) auto
  moreover have "(\<forall>row \<in> set rest. get row ''reservation_line_id'' \<noteq> JNull) \<Longrightarrow>
      filter (\<lambda>row. get row ''reservation_line_id'' \<noteq> JNull) rest = rest"
    by (induction rest) auto
  ultimately show ?thesis
    by (auto simp: reservation_of_group_def strict_eq_null)
qed

text \<open>C5 at a group of two rows with the child ids \<open>a\<close> and \<open>b\<close>.\<close>

theorem reservation_of_group_first_row_witness:
  "\<exists>r. reservation_of_group
          [join_row (JNum 1) (JStr ''s'') (JStr ''a'') (JStr ''d'') (JNum 2),
           join_row (JNum 1) (JStr ''s'') (JStr ''b'') (JStr ''e'') (JNum 5)] = Inr r \<and>
        reservation_id r = JNum 1 \<and> storeId r = JStr ''s'' \<and>
        lines r = [\<lparr> line_id = JStr ''a'', description = JStr ''d'', quantity = JNum 2 \<rparr>,
                   \<lparr> line_id = JStr ''b'', description = JStr ''e'', quantity = JNum 5 \<rparr>] \<and>
        lines r =
          List.map line_of_row
            (filter (\<lambda>row. get row ''reservation_line_id'' \<noteq> JNull)
               [join_row (JNum 1) (JStr ''s'') (JStr ''a'') (JStr ''d'') (JNum 2),
                join_row (JNum 1) (JStr ''s'') (JStr ''b'') (JStr ''e'') (JNum 5)])"
  using reservation_of_group_first_row
    [of "join_row (JNum 1) (JStr ''s'') (JStr ''a'') (JStr ''d'') (JNum 2)"
        "[join_row (JNum 1) (JStr ''s'') (JStr ''b'') (JStr ''e'') (JNum 5)]"]
  by (simp add: get_join_row line_of_row_def)

text \<open>
  C7. On the empty input sequence \<^verbatim>\<open>groupBy\<close> emits no group: its run is the return alone,
  with no group yielded after the loop. The composed pipeline, \<^verbatim>\<open>groupBy\<close>, then \<^verbatim>\<open>map\<close> with
  the transform, then \<^verbatim>\<open>map\<close> with the serialiser, gives the empty sequence of lines.
\<close>

theorem groupBy_empty:
  "groupBy (from_list []) f = from_list [] \<and>
   groupBy_run (from_list []) f = [Return] \<and>
   groupedReservations stringify (from_list []) = from_list []"
  by (simp add: groupBy_def groupBy_run_def delivered_def from_list_def groupedReservations_def
      reservations_def map_gen_def map_run_def plain_def)

text \<open>
  C8. On the rows \<^verbatim>\<open>{key:1}\<close>, \<^verbatim>\<open>{key:2}\<close>, \<^verbatim>\<open>{key:1}\<close>, \<^verbatim>\<open>groupBy\<close> emits three groups, one for
  each record: the two runs of key 1, which are not contiguous, are not merged.
\<close>

theorem groupBy_non_monotonic:
  "groupBy (from_list [key_row (JNum 1), key_row (JNum 2), key_row (JNum 1)]) (pure key_field) =
   from_list [[key_row (JNum 1)], [key_row (JNum 2)], [key_row (JNum 1)]]"
  by (simp add: groupBy_def groupBy_run_def delivered_def from_list_def pure_def strict_eq_def
      key_field_key_row)

text \<open>
  C9. On three rows ordered by key, with the keys \<open>1, 1, 2\<close> and the child ids \<open>a\<close>, \<open>b\<close>
  and \<^verbatim>\<open>null\<close>, whatever their other columns, the stages \<^verbatim>\<open>groupBy\<close> and transform produce two
  domain objects: the one with id \<open>1\<close> and the lines \<open>a\<close> and \<open>b\<close>, and the one with id \<open>2\<close>
  and no line.
\<close>

theorem reservations_example:
  "reservations
     (from_list
        [join_row (JNum 1) s1 (JStr ''a'') d1 q1,
         join_row (JNum 1) s2 (JStr ''b'') d2 q2,
         join_row (JNum 2) s3 JNull d3 q3]) =
   from_list
     [\<lparr> reservation_id = JNum 1, storeId = s1,
        lines = [\<lparr> line_id = JStr ''a'', description = d1, quantity = q1 \<rparr>,
                 \<lparr> line_id = JStr ''b'', description = d2, quantity = q2 \<rparr>] \<rparr>,
      \<lparr> reservation_id = JNum 2, storeId = s3, lines = [] \<rparr>]"
  by (simp add: reservations_def groupBy_def groupBy_run_def map_gen_def map_run_def delivered_def
      from_list_def key_of_row_def plain_def reservation_of_group_def line_of_row_def get_join_row
      strict_eq_def)

section \<open>The sentinel of groupBy\<close>

text \<open>
  C10, as stated, at the keys \<open>1\<close> and \<^verbatim>\<open>undefined\<close>: when the second record is pulled, the
  group of the first is yielded. The record whose key is \<^verbatim>\<open>undefined\<close> closes the current
  group.
\<close>

theorem groupBy_undefined_key_closes_group:
  "key_field (key_row JUndefined) = JUndefined \<and>
   groupBy_run (from_list [key_row (JNum 1), key_row JUndefined]) (pure key_field) =
     [Pull (key_row (JNum 1)), Pull (key_row JUndefined), Yield [key_row (JNum 1)],
      Yield [key_row JUndefined], Return]"
  by (simp add: groupBy_run_def from_list_def pure_def strict_eq_def key_field_key_row)

text \<open>
  C10, amended. \<^verbatim>\<open>groupBy\<close> uses the key value \<^verbatim>\<open>undefined\<close> as its mark for no key set yet.
  For every input sequence, a group is closed between a record and its successor exactly
  when the key of the record is not \<^verbatim>\<open>undefined\<close> and is not strictly equal to the key of
  the successor. So a record whose key is \<^verbatim>\<open>undefined\<close> never fixes a group key: the record
  after it joins its group, whatever its key. In particular, for an input \<open>[r1, r2]\<close> with
  \<open>f r1\<close> \<^verbatim>\<open>undefined\<close>, \<^verbatim>\<open>groupBy\<close> emits the single group \<open>[r1, r2]\<close>.
\<close>

theorem groupBy_closes_exactly:
  "groupBy (from_list rows) (pure f) = from_list (split_adj (closes_after f) rows) \<and>
   (f a = JUndefined \<longrightarrow> \<not> closes_after f a b) \<and>
   (f r1 = JUndefined \<longrightarrow> groupBy (from_list [r1, r2]) (pure f) = from_list [[r1, r2]])"
  by (simp add: groupBy_pure closes_after_def)

text \<open>C10 at the keys \<^verbatim>\<open>undefined\<close> and \<open>7\<close>.\<close>

theorem groupBy_closes_exactly_witness:
  "key_field (key_row JUndefined) = JUndefined \<and>
   \<not> closes_after key_field (key_row JUndefined) (key_row (JNum 7)) \<and>
   groupBy (from_list [key_row JUndefined, key_row (JNum 7)] :: (row, error) async_seq)
     (pure key_field) = from_list [[key_row JUndefined, key_row (JNum 7)]]"
proof -
  have h: "key_field (key_row JUndefined) = JUndefined"
    by (rule key_field_key_row)
  show ?thesis
    using h groupBy_closes_exactly
      [where f = key_field and a = "key_row JUndefined" and b = "key_row (JNum 7)"
         and ?r1.0 = "key_row JUndefined" and ?r2.0 = "key_row (JNum 7)"]
    by blast
qed

end
